theory Spec2Isabelle
  imports Main
begin

section \<open>The list virtualizer of \<open>hooks/useFixedSizeList.ts\<close>\<close>

text \<open>
  The hook \<open>useFixedSizeList\<close> computes, from the item count, the scroll offset, the
  viewport height and a height for every item, the rows of the list (height and offset of
  each), the total height and the range of rows to render; a measurement callback records
  the real heights of rendered rows.

  Conventions of the embedding.
  \<^item> JavaScript numbers are modelled by \<open>int\<close>: pixel quantities are taken to be whole
    numbers, and the rounding of doubles is not modelled. The item count and the row
    indices of the loop are \<open>nat\<close> (\<open>Array(itemsCount)\<close> raises for anything else).
  \<^item> \<open>startIndex\<close> and \<open>endIndex\<close> are \<open>int\<close>, with the source's sentinel \<open>-1\<close>.
  \<^item> A \<open>Key\<close> (\<open>string | number\<close>) is only ever used as a property name of the cache
    object, where a number stands for its string form: the model takes the property name.
  \<^item> An array slot is a \<open>row option\<close>: \<open>None\<close> is a hole of \<open>Array(n)\<close>, or
    \<open>undefined\<close> on reading.
  \<^item> A thrown exception is the \<open>Inl\<close> of a sum.
\<close>

subsection \<open>Data\<close>

type_synonym Key = string

datatype error =
    ConfigurationError  \<comment> \<open>the \<open>Error\<close> thrown by \<open>validateProps\<close>\<close>
  | TypeError           \<comment> \<open>calling \<open>undefined\<close>, or reading a property of \<open>undefined\<close>\<close>

text \<open>\<open>UseFixedSizeListProps\<close>. An optional property is an \<open>option\<close>. The height
  functions are only called by the loop, with its index; \<open>getItemKey\<close> is also called with
  the integer that \<open>parseInt\<close> read from an element. The result of \<open>getScrollElement()\<close>
  depends on the document at the time of the call; it is an argument of the function that
  calls it.\<close>

record props =
  itemsCount :: nat
  itemHeight :: "(nat \<Rightarrow> int) option"
  estimateItemHeight :: "(nat \<Rightarrow> int) option"
  getItemKey :: "int \<Rightarrow> Key"
  overscan :: "int option"
  scrollingDelay :: "nat option"

definition DEFAULT_OVERSCAN :: int where
  "DEFAULT_OVERSCAN = 3"

definition DEFAULT_SCROLLING_DELAY :: nat where
  "DEFAULT_SCROLLING_DELAY = 150"

text \<open>The elements of \<open>allRows\<close>.\<close>

record row =
  key :: Key
  index :: nat
  height :: int
  offsetTop :: int

text \<open>The object returned by the callback of \<open>useMemo\<close>.\<close>

record memo_result =
  virtualItems :: "row option list"
  startIndex :: int
  endIndex :: int
  allItems :: "row option list"
  totalHeight :: int

subsection \<open>\<open>validateProps\<close>\<close>

text \<open>Lines 26-34. The condition is \<open>!itemsCount && !estimateItemHeight\<close>: the first
  operand is the item count (falsy when it is zero), not \<open>itemHeight\<close>.\<close>

definition validateProps :: "props \<Rightarrow> error + unit" where
  "validateProps p =
     (if itemsCount p = 0 \<and> estimateItemHeight p = None
      then Inl ConfigurationError
      else Inr ())"

subsection \<open>The range calculator: the callback of \<open>useMemo\<close>\<close>

text \<open>\<open>getItemHeight\<close>, lines 146-156. With neither a fixed height, nor a cached
  height, nor an estimate function, \<open>estimateItemHeight!(index)\<close> calls \<open>undefined\<close>.\<close>

definition getItemHeight :: "props \<Rightarrow> (Key \<rightharpoonup> int) \<Rightarrow> nat \<Rightarrow> error + int" where
  "getItemHeight p measurementCache i =
     (case itemHeight p of
        Some f \<Rightarrow> Inr (f i)
      | None \<Rightarrow>
          (case measurementCache (getItemKey p (int i)) of
             Some v \<Rightarrow> Inr v
           | None \<Rightarrow>
               (case estimateItemHeight p of
                  Some g \<Rightarrow> Inr (g i)
                | None \<Rightarrow> Inl TypeError)))"

text \<open>The destructuring default \<open>overscan = DEFAULT_OVERSCAN\<close>.\<close>

definition overscanOf :: "props \<Rightarrow> int" where
  "overscanOf p = (case overscan p of None \<Rightarrow> DEFAULT_OVERSCAN | Some v \<Rightarrow> v)"

text \<open>One iteration of the \<open>for\<close> loop, lines 172-190, on the variables
  \<open>(totalHeight, startIndex, endIndex, allRows)\<close>, for the height \<open>h\<close> that
  \<open>getItemHeight(index)\<close> returned.\<close>

definition loopBody ::
  "props \<Rightarrow> int \<Rightarrow> int \<Rightarrow> nat \<Rightarrow> int \<Rightarrow> int \<times> int \<times> int \<times> row option list
     \<Rightarrow> int \<times> int \<times> int \<times> row option list" where
  "loopBody p rangeStart rangeEnd i h vars =
     (case vars of (tot, si, ei, allRows) \<Rightarrow>
        let r = \<lparr>key = getItemKey p (int i), index = i, height = h, offsetTop = tot\<rparr>;
            tot' = tot + height r;
            allRows' = allRows[i := Some r];
            si' = (if si = - 1 \<and> offsetTop r + height r > rangeStart
                   then max 0 (int i - overscanOf p) else si);
            ei' = (if ei = - 1 \<and> offsetTop r + height r \<ge> rangeEnd
                   then min (int (itemsCount p) - 1) (int i + overscanOf p) else ei)
        in (tot', si', ei', allRows'))"

text \<open>The loop \<open>for (let index = 0; index < itemsCount; index++)\<close>, from \<open>index = i\<close>
  on. An exception of \<open>getItemHeight\<close> leaves the loop.\<close>

function forLoop ::
  "props \<Rightarrow> (Key \<rightharpoonup> int) \<Rightarrow> int \<Rightarrow> int \<Rightarrow> nat \<Rightarrow> int \<times> int \<times> int \<times> row option list
     \<Rightarrow> error + (int \<times> int \<times> int \<times> row option list)" where
  "forLoop p measurementCache rangeStart rangeEnd i vars =
     (if i < itemsCount p then
        (case getItemHeight p measurementCache i of
           Inl e \<Rightarrow> Inl e
         | Inr h \<Rightarrow>
             forLoop p measurementCache rangeStart rangeEnd (Suc i)
               (loopBody p rangeStart rangeEnd i h vars))
      else Inr vars)"
  by pat_completeness auto
termination
  by (relation "measure (\<lambda>(p, c, rs, re, i, vars). itemsCount p - i)") auto

text \<open>\<open>Array.prototype.slice(start, end)\<close>: a negative bound counts from the end of the
  array, and both bounds are clamped to the array.\<close>

definition slice :: "'a list \<Rightarrow> int \<Rightarrow> int \<Rightarrow> 'a list" where
  "slice xs start end' =
     (let len = int (length xs);
          k = (if start < 0 then max (len + start) 0 else min start len);
          final = (if end' < 0 then max (len + end') 0 else min end' len)
      in take (nat (final - k)) (drop (nat k) xs))"

text \<open>The callback of \<open>useMemo\<close>, lines 145-205, as a function of the values it reads:
  the props, the measurement cache, \<open>scrollTop\<close> and \<open>listHeight\<close>.\<close>

definition rowsMemo :: "props \<Rightarrow> (Key \<rightharpoonup> int) \<Rightarrow> int \<Rightarrow> int \<Rightarrow> error + memo_result" where
  "rowsMemo p measurementCache scrollTop listHeight =
     (let rangeStart = scrollTop;
          rangeEnd = scrollTop + listHeight
      in case forLoop p measurementCache rangeStart rangeEnd 0
                (0, - 1, - 1, replicate (itemsCount p) None) of
           Inl e \<Rightarrow> Inl e
         | Inr (tot, si, ei, allRows) \<Rightarrow>
             Inr \<lparr>virtualItems = slice allRows si (ei + 1),
                  startIndex = si,
                  endIndex = ei,
                  allItems = allRows,
                  totalHeight = tot\<rparr>)"

subsection \<open>The state of the hook\<close>

text \<open>The object passed to \<open>useLatest\<close>, lines 217-223, as far as the measurement
  callback reads it.\<close>

record latest =
  latest_measurementCache :: "Key \<rightharpoonup> int"
  latest_getItemKey :: "int \<Rightarrow> Key"
  latest_allItems :: "row option list"
  latest_scrollTop :: int

text \<open>The state cells of one mounted hook: the four \<open>useState\<close> cells, lines 59-64, and
  \<open>valueRef.current\<close> of \<open>useLatest\<close>, which is \<open>None\<close> until the first render. The
  timer that sets and clears \<open>isScrolling\<close> (lines 112-141) is not modelled: the rows and
  the measurement callback never read that cell.\<close>

record hook_state =
  listHeight :: int
  scrollTop :: int
  isScrolling :: bool
  measurementCache :: "Key \<rightharpoonup> int"
  latestData :: "latest option"

text \<open>The state at mount: the initial values given to \<open>useState\<close>.\<close>

definition mount :: hook_state where
  "mount = \<lparr>listHeight = 0, scrollTop = 0, isScrolling = False,
            measurementCache = Map.empty, latestData = None\<rparr>"

text \<open>\<open>useLatest\<close>, lines 36-44: the content of \<open>valueRef.current\<close> once a render with
  \<open>value\<close> is committed, given the content before it. \<open>useRef(value)\<close> takes its argument
  on the first render only. The assignment \<open>valueRef.current = value\<close> is registered by
  \<open>useInsertionEffect\<close> with the dependency list \<open>[]\<close>: React runs such an effect once,
  after the first render, so it assigns the first render's value; no later render runs it.\<close>

definition useLatest :: "'a \<Rightarrow> 'a option \<Rightarrow> 'a" where
  "useLatest v valueRef = (case valueRef of None \<Rightarrow> v | Some first \<Rightarrow> first)"

text \<open>One render of \<open>useFixedSizeList\<close>, lines 46-309: the state cells after it and the
  rows it returns. (\<open>isScrolling\<close> is returned from its cell; \<open>measureElement\<close> is below.)\<close>

definition useFixedSizeList :: "props \<Rightarrow> hook_state \<Rightarrow> error + (hook_state \<times> memo_result)" where
  "useFixedSizeList p s =
     (case validateProps p of
        Inl e \<Rightarrow> Inl e
      | Inr _ \<Rightarrow>
          (case rowsMemo p (measurementCache s) (scrollTop s) (listHeight s) of
             Inl e \<Rightarrow> Inl e
           | Inr m \<Rightarrow>
               let cur = useLatest
                           \<lparr>latest_measurementCache = measurementCache s,
                            latest_getItemKey = getItemKey p,
                            latest_allItems = allItems m,
                            latest_scrollTop = scrollTop s\<rparr>
                           (latestData s)
               in Inr (s\<lparr>latestData := Some cur\<rparr>, m)))"

text \<open>The state setters the event handlers call: \<open>setListHeight(height)\<close> in the
  viewport's resize observer (line 81), \<open>setScrollTop(scrollElement.scrollTop)\<close> in
  \<open>handleScroll\<close> (lines 98-102), and
  \<open>setMeasurementCache((cache) => ({ ...cache, [key]: height }))\<close> (line 279).\<close>

definition setListHeight :: "int \<Rightarrow> hook_state \<Rightarrow> hook_state" where
  "setListHeight h s = s\<lparr>listHeight := h\<rparr>"

definition handleScroll :: "int \<Rightarrow> hook_state \<Rightarrow> hook_state" where
  "handleScroll elementScrollTop s = s\<lparr>scrollTop := elementScrollTop\<rparr>"

definition setMeasurementCache :: "Key \<Rightarrow> int \<Rightarrow> hook_state \<Rightarrow> hook_state" where
  "setMeasurementCache k h s = s\<lparr>measurementCache := (measurementCache s)(k \<mapsto> h)\<rparr>"

subsection \<open>The measurement callback\<close>

text \<open>A row element as the callback reads it: \<open>isConnected\<close>, the attribute
  \<open>data-index\<close> (\<open>None\<close> when \<open>getAttribute\<close> returns \<open>null\<close>), the height of
  \<open>getBoundingClientRect()\<close>, and an identity for the observer.\<close>

record element =
  isConnected :: bool
  dataIndex :: "string option"
  rectHeight :: int
  elementId :: nat

text \<open>A \<open>ResizeObserverEntry\<close>: the \<open>blockSize\<close> of each box of \<open>borderBoxSize\<close>.\<close>

record resize_entry =
  borderBoxSize :: "int list"

text \<open>What a call does to the world, in the order it does it.\<close>

datatype effect =
    Unobserve nat               \<comment> \<open>\<open>resizeObserver.unobserve(element)\<close>\<close>
  | Observe nat                 \<comment> \<open>\<open>resizeObserver.observe(element)\<close>\<close>
  | ConsoleError                \<comment> \<open>\<open>console.error(...)\<close>\<close>
  | ScrollBy int                \<comment> \<open>\<open>getScrollElement().scrollBy(0, delta)\<close>\<close>
  | SetMeasurementCache Key int \<comment> \<open>\<open>setMeasurementCache\<close> with this key and height\<close>

text \<open>\<open>parseInt(s, 10)\<close>: leading white space is skipped, then an optional sign, then the
  longest run of decimal digits; \<open>None\<close> is \<open>NaN\<close> (no digit). Characters are bytes here,
  so the white space is that of Latin-1.\<close>

definition isWhiteSpace :: "char \<Rightarrow> bool" where
  "isWhiteSpace c = (of_char c \<in> {9, 10, 11, 12, 13, 32, 160 :: nat})"

definition isDigit :: "char \<Rightarrow> bool" where
  "isDigit c = (48 \<le> (of_char c :: nat) \<and> (of_char c :: nat) \<le> 57)"

definition digitsValue :: "string \<Rightarrow> int" where
  "digitsValue ds = foldl (\<lambda>a c. 10 * a + (int (of_char c) - 48)) 0 ds"

definition parseInt :: "string \<Rightarrow> int option" where
  "parseInt s =
     (let t = dropWhile isWhiteSpace s;
          negative = (case t of c # _ \<Rightarrow> c = CHR ''-'' | [] \<Rightarrow> False);
          u = (case t of c # cs \<Rightarrow> if c = CHR ''-'' \<or> c = CHR ''+'' then cs else t
               | [] \<Rightarrow> []);
          ds = takeWhile isDigit u
      in if ds = [] then None
         else Some (if negative then - digitsValue ds else digitsValue ds))"

text \<open>Reading \<open>xs[i]\<close>: \<open>undefined\<close> outside the array.\<close>

definition at :: "'a option list \<Rightarrow> int \<Rightarrow> 'a option" where
  "at xs i = (if 0 \<le> i \<and> nat i < length xs then xs ! nat i else None)"

text \<open>\<open>measureElementInner\<close>, lines 225-282, on the value \<open>cur\<close> of
  \<open>latestData.current\<close>. \<open>scrollElement\<close> says whether \<open>getScrollElement()\<close> returns an
  element. The result is the effects in order, and \<open>Inl\<close> when the call ends by an
  exception: \<open>item.height\<close> with \<open>item\<close> undefined.\<close>

definition measureElementInner ::
  "latest \<Rightarrow> bool \<Rightarrow> element option \<Rightarrow> resize_entry option \<Rightarrow> effect list \<times> (error + unit)" where
  "measureElementInner cur scrollElement el entry =
     (case el of
        None \<Rightarrow> ([], Inr ())
      | Some e \<Rightarrow>
          if \<not> isConnected e then ([Unobserve (elementId e)], Inr ())
          else
            let indexAttribute = (case dataIndex e of None \<Rightarrow> [] | Some a \<Rightarrow> a) in
            (case parseInt indexAttribute of
               None \<Rightarrow> ([ConsoleError], Inr ())
             | Some i \<Rightarrow>
                 let k = latest_getItemKey cur i;
                     isResize = (entry \<noteq> None);
                     observed = [Observe (elementId e)]
                 in if \<not> isResize \<and> latest_measurementCache cur k \<noteq> None
                    then (observed, Inr ())
                    else
                      let h = (case entry of
                                 None \<Rightarrow> rectHeight e
                               | Some en \<Rightarrow>
                                   (case borderBoxSize en of
                                      [] \<Rightarrow> rectHeight e
                                    | b # _ \<Rightarrow> b))
                      in if latest_measurementCache cur k = Some h
                         then (observed, Inr ())
                         else
                           (case at (latest_allItems cur) i of
                              None \<Rightarrow> (observed, Inl TypeError)
                            | Some item \<Rightarrow>
                                let delta = h - height item;
                                    adjust =
                                      (if delta \<noteq> 0 \<and> latest_scrollTop cur > offsetTop item
                                          \<and> scrollElement
                                       then [ScrollBy delta] else [])
                                in (observed @ adjust @ [SetMeasurementCache k h], Inr ()))))"

text \<open>\<open>measureElement\<close>, lines 293-298: the callback the renderer attaches to a row. It
  passes no entry. Before the first render there is no callback (\<open>None\<close>).\<close>

definition measureElement ::
  "hook_state \<Rightarrow> bool \<Rightarrow> element option \<Rightarrow> (effect list \<times> (error + unit)) option" where
  "measureElement s scrollElement el =
     (case latestData s of
        None \<Rightarrow> None
      | Some cur \<Rightarrow> Some (measureElementInner cur scrollElement el None))"

text \<open>The callback of the rows' resize observer, lines 284-291, for one entry.\<close>

definition itemsResizeObserver ::
  "hook_state \<Rightarrow> bool \<Rightarrow> element \<Rightarrow> resize_entry \<Rightarrow> (effect list \<times> (error + unit)) option" where
  "itemsResizeObserver s scrollElement target entry =
     (case latestData s of
        None \<Rightarrow> None
      | Some cur \<Rightarrow> Some (measureElementInner cur scrollElement (Some target) (Some entry)))"

text \<open>The state cells after the effects of a call: only \<open>setMeasurementCache\<close> writes a
  cell; \<open>scrollBy\<close> moves the viewport, whose scroll event then calls \<open>handleScroll\<close>.\<close>

fun commit :: "effect list \<Rightarrow> hook_state \<Rightarrow> hook_state" where
  "commit [] s = s"
| "commit (SetMeasurementCache k h # es) s = commit es (setMeasurementCache k h s)"
| "commit (_ # es) s = commit es s"

subsection \<open>Notions used in the statements and proofs\<close>

text \<open>For heights \<open>h\<close>: the far edge \<open>offsetTop(i) + height(i)\<close> of row \<open>i\<close>, the first
  index below \<open>n\<close> with a property, and the row the loop builds for index \<open>i\<close>.\<close>

definition edge :: "(nat \<Rightarrow> int) \<Rightarrow> nat \<Rightarrow> int" where
  "edge h i = (\<Sum>j<i. h j) + h i"

definition firstIndex :: "(nat \<Rightarrow> bool) \<Rightarrow> nat \<Rightarrow> nat option" where
  "firstIndex P n = List.find P [0..<n]"

definition rowOf :: "props \<Rightarrow> (nat \<Rightarrow> int) \<Rightarrow> nat \<Rightarrow> row" where
  "rowOf p h i =
     \<lparr>key = getItemKey p (int i), index = i, height = h i, offsetTop = (\<Sum>j<i. h j)\<rparr>"

text \<open>The loop variables after \<open>k\<close> iterations, in closed form.\<close>

definition rowsOf :: "props \<Rightarrow> (nat \<Rightarrow> int) \<Rightarrow> nat \<Rightarrow> row option list" where
  "rowsOf p h k = map (\<lambda>i. Some (rowOf p h i)) [0..<k] @ replicate (itemsCount p - k) None"

definition startOf :: "props \<Rightarrow> (nat \<Rightarrow> int) \<Rightarrow> int \<Rightarrow> nat \<Rightarrow> int" where
  "startOf p h rs k =
     (case firstIndex (\<lambda>i. rs < edge h i) k of
        None \<Rightarrow> - 1
      | Some s \<Rightarrow> max 0 (int s - overscanOf p))"

definition endOf :: "props \<Rightarrow> (nat \<Rightarrow> int) \<Rightarrow> int \<Rightarrow> nat \<Rightarrow> int" where
  "endOf p h re k =
     (case firstIndex (\<lambda>i. re \<le> edge h i) k of
        None \<Rightarrow> - 1
      | Some e \<Rightarrow> min (int (itemsCount p) - 1) (int e + overscanOf p))"

text \<open>The loop invariant. With a negative overscan the loop can assign \<open>- 1\<close> to
  \<open>endIndex\<close> and assign it again later, so the closed form of \<open>endIndex\<close> is claimed for
  a non-negative overscan only.\<close>

definition loopInv ::
  "props \<Rightarrow> (nat \<Rightarrow> int) \<Rightarrow> int \<Rightarrow> int \<Rightarrow> nat \<Rightarrow> int \<times> int \<times> int \<times> row option list \<Rightarrow> bool" where
  "loopInv p h rs re k vars =
     (case vars of (tot, si, ei, allRows) \<Rightarrow>
        tot = (\<Sum>j<k. h j) \<and> allRows = rowsOf p h k \<and> si = startOf p h rs k \<and>
        (firstIndex (\<lambda>i. re \<le> edge h i) k = None \<longrightarrow> ei = - 1) \<and>
        (0 \<le> overscanOf p \<longrightarrow> ei = endOf p h re k))"

subsection \<open>Example inputs\<close>

text \<open>Four items of estimated height 16, as the demo application passes them (it gives
  no \<open>itemHeight\<close>); the same list with a fixed height of 40; and props with neither
  height function.\<close>

definition exampleKey :: "int \<Rightarrow> Key" where
  "exampleKey i = (if i = 0 then ''a'' else if i = 1 then ''b'' else if i = 2 then ''c'' else ''d'')"

definition exampleProps :: props where
  "exampleProps =
     \<lparr>itemsCount = 4, itemHeight = None, estimateItemHeight = Some (\<lambda>_. 16),
      getItemKey = exampleKey, overscan = None, scrollingDelay = None\<rparr>"

definition fixedProps :: props where
  "fixedProps =
     \<lparr>itemsCount = 4, itemHeight = Some (\<lambda>_. 40), estimateItemHeight = None,
      getItemKey = exampleKey, overscan = None, scrollingDelay = None\<rparr>"

definition noHeightProps :: props where
  "noHeightProps =
     \<lparr>itemsCount = 4, itemHeight = None, estimateItemHeight = None,
      getItemKey = exampleKey, overscan = None, scrollingDelay = None\<rparr>"

text \<open>The element of row 0, connected, 30 pixels high.\<close>

definition exampleElement :: element where
  "exampleElement = \<lparr>isConnected = True, dataIndex = Some ''0'', rectHeight = 30, elementId = 7\<rparr>"

text \<open>The state cells after a render (a render that throws leaves them as they were).\<close>

definition render :: "props \<Rightarrow> hook_state \<Rightarrow> hook_state" where
  "render p s = (case useFixedSizeList p s of Inl _ \<Rightarrow> s | Inr (s', _) \<Rightarrow> s')"

text \<open>A mounted list in a viewport 20 pixels high: the first render, the viewport's
  resize observer reporting the height, and the render it causes.\<close>

definition mountedState :: "props \<Rightarrow> hook_state" where
  "mountedState p = render p (setListHeight 20 (render p mount))"

text \<open>The same list after the user has scrolled down by 20 pixels.\<close>

definition scrolledState :: "props \<Rightarrow> hook_state" where
  "scrolledState p = render p (handleScroll 20 (mountedState p))"

text \<open>The same list once a first call of the measurement callback has recorded the
  height of \<open>exampleElement\<close> and the hook has rendered again.\<close>

definition measuredState :: "props \<Rightarrow> hook_state" where
  "measuredState p =
     render p (commit [Observe 7, SetMeasurementCache ''a'' 30] (mountedState p))"

section \<open>Properties\<close>

subsection \<open>The loop\<close>

declare forLoop.simps [simp del]

lemma find_snoc:
  "List.find P (xs @ [x]) = (case List.find P xs of Some y \<Rightarrow> Some y | None \<Rightarrow> if P x then Some x else None)"
  by (induction xs) auto

lemma firstIndex_0: "firstIndex P 0 = None"
  by (simp add: firstIndex_def)

lemma firstIndex_Suc:
  "firstIndex P (Suc k) = (case firstIndex P k of Some i \<Rightarrow> Some i | None \<Rightarrow> if P k then Some k else None)"
  by (simp add: firstIndex_def find_snoc)

lemma firstIndex_None_iff: "firstIndex P n = None \<longleftrightarrow> (\<forall>i<n. \<not> P i)"
  by (auto simp: firstIndex_def find_None_iff)

lemma firstIndex_Some_iff:
  "firstIndex P n = Some s \<longleftrightarrow> s < n \<and> P s \<and> (\<forall>i<s. \<not> P i)"
proof
  assume "firstIndex P n = Some s"
  then obtain i where i: "i < n" "P ([0..<n] ! i)" "s = [0..<n] ! i" "\<forall>j<i. \<not> P ([0..<n] ! j)"
    by (auto simp: firstIndex_def find_Some_iff)
  then have "s = i" by simp
  moreover have "\<forall>j<i. \<not> P j"
  proof (intro allI impI)
    fix j assume "j < i"
    then have "\<not> P ([0..<n] ! j)" using i(4) by blast
    then show "\<not> P j" using \<open>j < i\<close> i(1) by simp
  qed
  ultimately show "s < n \<and> P s \<and> (\<forall>i<s. \<not> P i)" using i by simp
next
  assume a: "s < n \<and> P s \<and> (\<forall>i<s. \<not> P i)"
  then have "s < length [0..<n] \<and> P ([0..<n] ! s) \<and> s = [0..<n] ! s \<and> (\<forall>j<s. \<not> P ([0..<n] ! j))"
    by simp
  then show "firstIndex P n = Some s"
    unfolding firstIndex_def find_Some_iff by blast
qed

lemma rowsOf_0: "rowsOf p h 0 = replicate (itemsCount p) None"
  by (simp add: rowsOf_def)

lemma rowsOf_Suc:
  "k < itemsCount p \<Longrightarrow> (rowsOf p h k)[k := Some (rowOf p h k)] = rowsOf p h (Suc k)"
proof -
  assume k: "k < itemsCount p"
  then obtain m where m: "itemsCount p - k = Suc m" "itemsCount p - Suc k = m"
    by (metis Suc_diff_Suc)
  show ?thesis
    by (simp add: rowsOf_def m list_update_append)
qed

lemma loopInv_init: "loopInv p h rs re 0 (0, - 1, - 1, replicate (itemsCount p) None)"
  by (simp add: loopInv_def rowsOf_0 startOf_def endOf_def firstIndex_0)

lemma endOf_nonneg:
  assumes "0 \<le> overscanOf p" "k \<le> itemsCount p" "firstIndex P k = Some e"
  shows "0 \<le> min (int (itemsCount p) - 1) (int e + overscanOf p)"
proof -
  have "e < k" using assms(3) by (simp add: firstIndex_Some_iff)
  then show ?thesis using assms(1,2) by simp
qed

lemma loopInv_step:
  assumes k: "k < itemsCount p" and inv: "loopInv p h rs re k vars"
  shows "loopInv p h rs re (Suc k) (loopBody p rs re k (h k) vars)"
proof -
  obtain tot si ei allRows where vars: "vars = (tot, si, ei, allRows)"
    by (cases vars) auto
  have tot: "tot = (\<Sum>j<k. h j)" and rows: "allRows = rowsOf p h k"
    and si: "si = startOf p h rs k"
    and ei0: "firstIndex (\<lambda>i. re \<le> edge h i) k = None \<Longrightarrow> ei = - 1"
    and ei1: "0 \<le> overscanOf p \<Longrightarrow> ei = endOf p h re k"
    using inv by (simp_all add: loopInv_def vars)
  have e: "tot + h k = edge h k" by (simp add: tot edge_def)
  have si_m1: "si = - 1 \<longleftrightarrow> firstIndex (\<lambda>i. rs < edge h i) k = None"
  proof -
    have "max 0 (int x - overscanOf p) \<noteq> - 1" for x
      by linarith
    then show ?thesis by (simp add: si startOf_def split: option.splits)
  qed
  have A: "(if si = - 1 \<and> rs < tot + h k then max 0 (int k - overscanOf p) else si)
             = startOf p h rs (Suc k)"
    using si_m1 by (auto simp: e startOf_def firstIndex_Suc si split: option.splits)
  have B: "firstIndex (\<lambda>i. re \<le> edge h i) (Suc k) = None \<Longrightarrow>
           (if ei = - 1 \<and> re \<le> tot + h k
            then min (int (itemsCount p) - 1) (int k + overscanOf p) else ei) = - 1"
    using ei0 by (auto simp: e firstIndex_Suc split: option.splits if_splits)
  have C: "(if ei = - 1 \<and> re \<le> tot + h k
            then min (int (itemsCount p) - 1) (int k + overscanOf p) else ei)
             = endOf p h re (Suc k)" if ov: "0 \<le> overscanOf p"
  proof (cases "firstIndex (\<lambda>i. re \<le> edge h i) k")
    case None
    then show ?thesis using ei0 by (simp add: e endOf_def firstIndex_Suc)
  next
    case (Some t)
    have "0 \<le> ei"
      using endOf_nonneg[OF ov _ Some] k ei1[OF ov] by (simp add: endOf_def Some)
    then have "ei \<noteq> - 1" by simp
    then show ?thesis using ei1[OF ov] by (simp add: endOf_def firstIndex_Suc Some)
  qed
  show ?thesis
    using A B C
    by (simp add: loopInv_def loopBody_def vars Let_def rows rowsOf_Suc[OF k, unfolded rowOf_def] tot)
qed

lemma forLoop_inv:
  assumes hs: "\<forall>i<itemsCount p. getItemHeight p cache i = Inr (h i)"
  shows "k \<le> itemsCount p \<Longrightarrow> loopInv p h rs re k vars \<Longrightarrow>
         \<exists>vars'. forLoop p cache rs re k vars = Inr vars' \<and> loopInv p h rs re (itemsCount p) vars'"
proof (induction "itemsCount p - k" arbitrary: k vars)
  case 0
  then have "k = itemsCount p" by simp
  then show ?case using "0.prems"(2) by (simp add: forLoop.simps)
next
  case (Suc d)
  then have k: "k < itemsCount p" by simp
  have "\<exists>vars'. forLoop p cache rs re (Suc k) (loopBody p rs re k (h k) vars) = Inr vars'
          \<and> loopInv p h rs re (itemsCount p) vars'"
    using Suc.hyps(1)[of "Suc k"] Suc.hyps(2) k loopInv_step[OF k Suc.prems(2)] by simp
  then show ?case
    using k hs by (subst forLoop.simps) simp
qed

lemma rowsOf_full: "rowsOf p h (itemsCount p) = map (\<lambda>i. Some (rowOf p h i)) [0..<itemsCount p]"
  by (simp add: rowsOf_def)

lemma rowsMemo_result:
  assumes hs: "\<forall>i<itemsCount p. getItemHeight p cache i = Inr (h i)"
  shows "\<exists>r. rowsMemo p cache st lh = Inr r \<and>
           totalHeight r = (\<Sum>j<itemsCount p. h j) \<and>
           allItems r = map (\<lambda>i. Some (rowOf p h i)) [0..<itemsCount p] \<and>
           startIndex r = startOf p h st (itemsCount p) \<and>
           (firstIndex (\<lambda>i. st + lh \<le> edge h i) (itemsCount p) = None \<longrightarrow> endIndex r = - 1) \<and>
           (0 \<le> overscanOf p \<longrightarrow> endIndex r = endOf p h (st + lh) (itemsCount p)) \<and>
           virtualItems r = slice (allItems r) (startIndex r) (endIndex r + 1)"
proof -
  obtain vars where v: "forLoop p cache st (st + lh) 0 (0, - 1, - 1, replicate (itemsCount p) None) = Inr vars"
      and inv: "loopInv p h st (st + lh) (itemsCount p) vars"
    using forLoop_inv[OF hs, where k = 0 and rs = st and re = "st + lh", OF _ loopInv_init] by auto
  obtain tot si ei allRows where vars: "vars = (tot, si, ei, allRows)"
    by (cases vars) auto
  show ?thesis
    using inv by (simp add: rowsMemo_def v vars loopInv_def rowsOf_full)
qed

lemma slice_to_0: "slice xs a 0 = []"
  by (simp add: slice_def Let_def)

lemma example_heights:
  "\<forall>i<itemsCount (exampleProps\<lparr>itemsCount := n\<rparr>).
      getItemHeight (exampleProps\<lparr>itemsCount := n\<rparr>) Map.empty i = Inr ((\<lambda>_. 16) i)"
  by (simp add: exampleProps_def getItemHeight_def)

text \<open>Claim C2. Whenever every height lookup returns (\<open>h i\<close> for item \<open>i\<close>), the
  callback returns, \<open>allItems\<close> has one row per item, row \<open>i\<close> has height \<open>h i\<close> and an
  \<open>offsetTop\<close> equal to the sum of the heights of rows \<open>0\<close> to \<open>i - 1\<close> (so \<open>0\<close> for row
  \<open>0\<close>), \<open>totalHeight\<close> is \<open>0\<close> for an empty list and the last row's
  \<open>offsetTop + height\<close> otherwise, and the offsets never decrease along the list when no
  height is negative.\<close>

theorem rows_prefix_sums:
  assumes "\<forall>i<itemsCount p. getItemHeight p cache i = Inr (h i)"
  shows "\<exists>r. rowsMemo p cache scrollOffset viewportHeight = Inr r \<and>
           length (allItems r) = itemsCount p \<and>
           (\<forall>i<itemsCount p. \<exists>x. allItems r ! i = Some x \<and> index x = i \<and> height x = h i \<and>
                offsetTop x = (\<Sum>j<i. h j)) \<and>
           (itemsCount p = 0 \<longrightarrow> totalHeight r = 0) \<and>
           (0 < itemsCount p \<longrightarrow>
              (\<exists>x. allItems r ! (itemsCount p - 1) = Some x \<and> totalHeight r = offsetTop x + height x)) \<and>
           ((\<forall>i<itemsCount p. 0 \<le> h i) \<longrightarrow>
              (\<forall>i j x y. i \<le> j \<and> j < itemsCount p \<and> allItems r ! i = Some x \<and> allItems r ! j = Some y
                 \<longrightarrow> offsetTop x \<le> offsetTop y))"
proof -
  obtain r where r: "rowsMemo p cache scrollOffset viewportHeight = Inr r"
      and tot: "totalHeight r = (\<Sum>j<itemsCount p. h j)"
      and rows: "allItems r = map (\<lambda>i. Some (rowOf p h i)) [0..<itemsCount p]"
    using rowsMemo_result[OF assms, of scrollOffset viewportHeight] by blast
  have nth: "allItems r ! i = Some (rowOf p h i)" if "i < itemsCount p" for i
    using that by (simp add: rows)
  have a: "length (allItems r) = itemsCount p" by (simp add: rows)
  have b: "\<forall>i<itemsCount p. \<exists>x. allItems r ! i = Some x \<and> index x = i \<and> height x = h i \<and>
                offsetTop x = (\<Sum>j<i. h j)"
    by (simp add: nth rowOf_def)
  have c: "itemsCount p = 0 \<longrightarrow> totalHeight r = 0" by (simp add: tot)
  have d: "0 < itemsCount p \<longrightarrow>
              (\<exists>x. allItems r ! (itemsCount p - 1) = Some x \<and> totalHeight r = offsetTop x + height x)"
  proof
    assume "0 < itemsCount p"
    then obtain m where m: "itemsCount p = Suc m" by (cases "itemsCount p") auto
    show "\<exists>x. allItems r ! (itemsCount p - 1) = Some x \<and> totalHeight r = offsetTop x + height x"
      by (simp add: m nth tot rowOf_def)
  qed
  have e: "(\<forall>i<itemsCount p. 0 \<le> h i) \<longrightarrow>
              (\<forall>i j x y. i \<le> j \<and> j < itemsCount p \<and> allItems r ! i = Some x \<and> allItems r ! j = Some y
                 \<longrightarrow> offsetTop x \<le> offsetTop y)"
  proof (intro impI allI)
    fix i j x y
    assume pos: "\<forall>i<itemsCount p. 0 \<le> h i"
      and ij: "i \<le> j \<and> j < itemsCount p \<and> allItems r ! i = Some x \<and> allItems r ! j = Some y"
    then have x: "x = rowOf p h i" and y: "y = rowOf p h j"
      using nth[of i] nth[of j] by auto
    have "(\<Sum>k<i. h k) \<le> (\<Sum>k<j. h k)"
    proof (rule sum_mono2)
      show "finite {..<j}" by simp
      show "{..<i} \<subseteq> {..<j}" using ij by auto
      show "\<And>b. b \<in> {..<j} - {..<i} \<Longrightarrow> 0 \<le> h b" using pos ij by auto
    qed
    then show "offsetTop x \<le> offsetTop y" by (simp add: x y rowOf_def)
  qed
  show ?thesis
    by (intro exI[of _ r] conjI r a b c d e)
qed

theorem rows_prefix_sums_witness:
  "(\<exists>r. rowsMemo exampleProps Map.empty 0 600 = Inr r \<and> length (allItems r) = 4 \<and>
        (\<exists>x y. allItems r ! 1 = Some x \<and> allItems r ! 3 = Some y \<and>
               offsetTop y = 48 \<and> offsetTop x \<le> offsetTop y \<and>
               totalHeight r = offsetTop y + height y)) \<and>
   (\<exists>r. rowsMemo (exampleProps\<lparr>itemsCount := 0\<rparr>) Map.empty 0 600 = Inr r \<and> totalHeight r = 0)"
proof -
  have hs: "\<forall>i<itemsCount exampleProps. getItemHeight exampleProps Map.empty i = Inr ((\<lambda>_. 16) i)"
    by (simp add: exampleProps_def getItemHeight_def)
  have n: "itemsCount exampleProps = 4" by (simp add: exampleProps_def)
  obtain r where r: "rowsMemo exampleProps Map.empty 0 600 = Inr r"
      and len: "length (allItems r) = itemsCount exampleProps"
      and rows: "\<forall>i<itemsCount exampleProps. \<exists>x. allItems r ! i = Some x \<and> index x = i \<and>
                   height x = 16 \<and> offsetTop x = (\<Sum>j<i. 16)"
      and empty: "itemsCount exampleProps = 0 \<longrightarrow> totalHeight r = 0"
      and last: "0 < itemsCount exampleProps \<longrightarrow>
                   (\<exists>x. allItems r ! (itemsCount exampleProps - 1) = Some x \<and>
                        totalHeight r = offsetTop x + height x)"
      and mono: "(\<forall>i<itemsCount exampleProps. (0::int) \<le> 16) \<longrightarrow>
                   (\<forall>i j x y. i \<le> j \<and> j < itemsCount exampleProps \<and>
                        allItems r ! i = Some x \<and> allItems r ! j = Some y
                      \<longrightarrow> offsetTop x \<le> offsetTop y)"
    using rows_prefix_sums[OF hs, of 0 600] by (elim exE conjE) (rule that; assumption)
  obtain y where y: "allItems r ! 3 = Some y" "totalHeight r = offsetTop y + height y"
    using last by (auto simp: n)
  have "1 < itemsCount exampleProps" by (simp add: n)
  then obtain x where x: "allItems r ! 1 = Some x"
    using rows by blast
  have "3 < itemsCount exampleProps" by (simp add: n)
  then obtain y' where y': "allItems r ! 3 = Some y'" "offsetTop y' = (\<Sum>j<(3::nat). 16)"
    using rows by blast
  have off: "offsetTop y = 48" using y y' by simp
  have "(1::nat) \<le> 3 \<and> 3 < itemsCount exampleProps \<and> allItems r ! 1 = Some x \<and> allItems r ! 3 = Some y"
    using x y by (simp add: n)
  moreover have "\<forall>i j x y. i \<le> j \<and> j < itemsCount exampleProps \<and>
                        allItems r ! i = Some x \<and> allItems r ! j = Some y
                      \<longrightarrow> offsetTop x \<le> offsetTop y"
    using mono by simp
  ultimately have le: "offsetTop x \<le> offsetTop y"
    by blast
  have A: "\<exists>r. rowsMemo exampleProps Map.empty 0 600 = Inr r \<and> length (allItems r) = 4 \<and>
        (\<exists>x y. allItems r ! 1 = Some x \<and> allItems r ! 3 = Some y \<and>
               offsetTop y = 48 \<and> offsetTop x \<le> offsetTop y \<and>
               totalHeight r = offsetTop y + height y)"
    using r len x y off le by (auto simp: n)
  have B: "\<exists>r. rowsMemo (exampleProps\<lparr>itemsCount := 0\<rparr>) Map.empty 0 600 = Inr r \<and> totalHeight r = 0"
    using rows_prefix_sums[of "exampleProps\<lparr>itemsCount := 0\<rparr>" Map.empty "\<lambda>_. 16" 0 600]
    by auto
  show ?thesis using A B by (rule conjI)
qed

lemma startOf_Some:
  assumes "s < n" "rs < edge h s" "\<forall>i<s. \<not> rs < edge h i"
  shows "startOf p h rs n = max 0 (int s - overscanOf p)"
proof -
  have "firstIndex (\<lambda>i. rs < edge h i) n = Some s"
    using assms by (simp add: firstIndex_Some_iff)
  then show ?thesis by (simp add: startOf_def)
qed

lemma endOf_Some:
  assumes "e < n" "re \<le> edge h e" "\<forall>i<e. \<not> re \<le> edge h i"
  shows "endOf p h re n = min (int (itemsCount p) - 1) (int e + overscanOf p)"
proof -
  have "firstIndex (\<lambda>i. re \<le> edge h i) n = Some e"
    using assms by (simp add: firstIndex_Some_iff)
  then show ?thesis by (simp add: endOf_def)
qed

text \<open>Claim C1. With a non-negative overscan (the spec's domain), if \<open>s\<close> is the
  smallest index with \<open>offsetTop(s) + height(s) > scrollOffset\<close> and \<open>e\<close> the smallest
  index with \<open>offsetTop(e) + height(e) \<ge> scrollOffset + viewportHeight\<close>, then
  \<open>startIndex = max(0, s - overscan)\<close> and \<open>endIndex = min(itemsCount - 1, e + overscan)\<close>.\<close>

theorem range_boundaries:
  assumes hs: "\<forall>i<itemsCount p. getItemHeight p cache i = Inr (h i)"
    and ov: "0 \<le> overscanOf p"
    and s: "s < itemsCount p" "scrollOffset < (\<Sum>j<s. h j) + h s"
           "\<forall>i<s. \<not> scrollOffset < (\<Sum>j<i. h j) + h i"
    and e: "e < itemsCount p" "scrollOffset + viewportHeight \<le> (\<Sum>j<e. h j) + h e"
           "\<forall>i<e. \<not> scrollOffset + viewportHeight \<le> (\<Sum>j<i. h j) + h i"
  shows "\<exists>r. rowsMemo p cache scrollOffset viewportHeight = Inr r \<and>
           startIndex r = max 0 (int s - overscanOf p) \<and>
           endIndex r = min (int (itemsCount p) - 1) (int e + overscanOf p)"
proof -
  obtain r where r: "rowsMemo p cache scrollOffset viewportHeight = Inr r"
      and si: "startIndex r = startOf p h scrollOffset (itemsCount p)"
      and ei: "0 \<le> overscanOf p \<longrightarrow> endIndex r = endOf p h (scrollOffset + viewportHeight) (itemsCount p)"
    using rowsMemo_result[OF hs, of scrollOffset viewportHeight] by (elim exE conjE) (rule that; assumption)
  have "startIndex r = max 0 (int s - overscanOf p)"
    using s by (simp add: si startOf_Some edge_def)
  moreover have "endIndex r = min (int (itemsCount p) - 1) (int e + overscanOf p)"
    using e ei ov by (simp add: endOf_Some edge_def)
  ultimately show ?thesis using r by simp
qed

theorem range_boundaries_witness:
  "\<exists>r. rowsMemo (exampleProps\<lparr>itemsCount := 100\<rparr>) Map.empty 160 64 = Inr r \<and>
        startIndex r = 7 \<and> endIndex r = 16"
  using range_boundaries[of "exampleProps\<lparr>itemsCount := 100\<rparr>" Map.empty "\<lambda>_. 16" 10 160 13 64]
  by (simp add: exampleProps_def getItemHeight_def overscanOf_def DEFAULT_OVERSCAN_def)

text \<open>Claim C4, amended. For \<open>itemsCount > 0\<close>, \<open>viewportHeight > 0\<close> and a
  non-negative overscan: if some row's far edge reaches \<open>scrollOffset + viewportHeight\<close>,
  then \<open>0 \<le> startIndex \<le> endIndex \<le> itemsCount - 1\<close>; if none does (the viewport extends
  past the content), \<open>endIndex\<close> is the unset value \<open>- 1\<close>: nothing makes it the last
  index.\<close>

theorem range_within_bounds:
  assumes hs: "\<forall>i<itemsCount p. getItemHeight p cache i = Inr (h i)"
    and ov: "0 \<le> overscanOf p"
    and n: "0 < itemsCount p"
    and vh: "0 < viewportHeight"
  shows "\<exists>r. rowsMemo p cache scrollOffset viewportHeight = Inr r \<and>
           ((\<exists>i<itemsCount p. scrollOffset + viewportHeight \<le> (\<Sum>j<i. h j) + h i) \<longrightarrow>
              0 \<le> startIndex r \<and> startIndex r \<le> endIndex r \<and> endIndex r \<le> int (itemsCount p) - 1) \<and>
           ((\<forall>i<itemsCount p. (\<Sum>j<i. h j) + h i < scrollOffset + viewportHeight) \<longrightarrow>
              endIndex r = - 1)"
proof -
  let ?n = "itemsCount p"
  let ?re = "scrollOffset + viewportHeight"
  obtain r where r: "rowsMemo p cache scrollOffset viewportHeight = Inr r"
      and si: "startIndex r = startOf p h scrollOffset ?n"
      and ei0: "firstIndex (\<lambda>i. ?re \<le> edge h i) ?n = None \<longrightarrow> endIndex r = - 1"
      and ei: "0 \<le> overscanOf p \<longrightarrow> endIndex r = endOf p h ?re ?n"
    using rowsMemo_result[OF hs, of scrollOffset viewportHeight] by (elim exE conjE) (rule that; assumption)
  have a: "0 \<le> startIndex r \<and> startIndex r \<le> endIndex r \<and> endIndex r \<le> int ?n - 1"
    if ex: "\<exists>i<?n. ?re \<le> (\<Sum>j<i. h j) + h i"
  proof -
    have "firstIndex (\<lambda>i. ?re \<le> edge h i) ?n \<noteq> None"
      using ex by (simp add: firstIndex_None_iff edge_def)
    then obtain e where e: "firstIndex (\<lambda>i. ?re \<le> edge h i) ?n = Some e" by auto
    then have e': "e < ?n" "?re \<le> edge h e" by (simp_all add: firstIndex_Some_iff)
    then have "scrollOffset < edge h e" using vh by simp
    then have "firstIndex (\<lambda>i. scrollOffset < edge h i) ?n \<noteq> None"
      using e'(1) by (auto simp: firstIndex_None_iff)
    then obtain s where s: "firstIndex (\<lambda>i. scrollOffset < edge h i) ?n = Some s" by auto
    then have s': "s < ?n" "\<forall>i<s. \<not> scrollOffset < edge h i" by (simp_all add: firstIndex_Some_iff)
    have se: "s \<le> e" using s'(2) \<open>scrollOffset < edge h e\<close> by (meson not_le)
    have "startIndex r = max 0 (int s - overscanOf p)" by (simp add: si startOf_def s)
    moreover have "endIndex r = min (int ?n - 1) (int e + overscanOf p)"
      using ei ov by (simp add: endOf_def e)
    ultimately show ?thesis using se s'(1) e'(1) ov by simp
  qed
  have b: "endIndex r = - 1" if none: "\<forall>i<?n. (\<Sum>j<i. h j) + h i < ?re"
  proof -
    have "firstIndex (\<lambda>i. ?re \<le> edge h i) ?n = None"
      using none by (simp add: firstIndex_None_iff edge_def not_le)
    then show ?thesis using ei0 by simp
  qed
  show ?thesis using r a b by simp
qed

theorem range_within_bounds_witness:
  "(\<exists>r. rowsMemo (exampleProps\<lparr>itemsCount := 100\<rparr>) Map.empty 160 64 = Inr r \<and>
        0 \<le> startIndex r \<and> startIndex r \<le> endIndex r \<and> endIndex r \<le> 99) \<and>
   (\<exists>r. rowsMemo exampleProps Map.empty 0 600 = Inr r \<and> endIndex r = - 1)"
proof -
  have ov: "0 \<le> overscanOf (exampleProps\<lparr>itemsCount := n\<rparr>)" for n
    by (simp add: exampleProps_def overscanOf_def DEFAULT_OVERSCAN_def)
  have ex: "\<exists>i<itemsCount (exampleProps\<lparr>itemsCount := 100\<rparr>). (160::int) + 64 \<le> (\<Sum>j<i. 16) + 16"
    by (rule exI[of _ 13]) (simp add: exampleProps_def)
  have A: "\<exists>r. rowsMemo (exampleProps\<lparr>itemsCount := 100\<rparr>) Map.empty 160 64 = Inr r \<and>
        0 \<le> startIndex r \<and> startIndex r \<le> endIndex r \<and> endIndex r \<le> 99"
    using range_within_bounds[OF example_heights ov, of 100 64 160] ex by auto
  have none: "\<forall>i<itemsCount exampleProps. (\<Sum>j<i. 16) + 16 < (0::int) + 600"
    by (simp add: exampleProps_def)
  have B: "\<exists>r. rowsMemo exampleProps Map.empty 0 600 = Inr r \<and> endIndex r = - 1"
    using range_within_bounds[OF example_heights ov, of 4 600 0] none
    by (auto simp: exampleProps_def)
  show ?thesis using A B by (rule conjI)
qed

text \<open>Claim C4 as stated fails: four rows of 16 pixels in a viewport of 600. The
  content ends above the bottom of the viewport, \<open>endIndex\<close> stays \<open>- 1\<close>, below
  \<open>startIndex = 0\<close> and outside \<open>[0, 3]\<close>.\<close>

theorem end_boundary_counterexample:
  "rowsMemo exampleProps Map.empty 0 600 =
     Inr \<lparr>virtualItems = [], startIndex = 0, endIndex = - 1,
          allItems =
            [Some \<lparr>key = ''a'', index = 0, height = 16, offsetTop = 0\<rparr>,
             Some \<lparr>key = ''b'', index = 1, height = 16, offsetTop = 16\<rparr>,
             Some \<lparr>key = ''c'', index = 2, height = 16, offsetTop = 32\<rparr>,
             Some \<lparr>key = ''d'', index = 3, height = 16, offsetTop = 48\<rparr>],
          totalHeight = 64\<rparr>"
  by code_simp

text \<open>Claim C7, amended. For \<open>itemsCount > 0\<close>, a non-negative overscan and
  \<open>viewportHeight = 0\<close>, the rows and \<open>totalHeight\<close> are computed as for any other
  viewport, and the range follows the ordinary rule with \<open>rangeEnd = scrollOffset\<close>:
  \<open>startIndex\<close> is \<open>max(0, s - overscan)\<close> for the smallest \<open>s\<close> whose far edge lies
  beyond \<open>scrollOffset\<close>, and unset exactly when there is none; \<open>endIndex\<close> is
  \<open>min(itemsCount - 1, e + overscan)\<close> for the smallest \<open>e\<close> whose far edge reaches
  \<open>scrollOffset\<close>, and unset exactly when there is none; an index that is set lies in
  \<open>[0, itemsCount - 1]\<close>.\<close>

theorem zero_viewport_range:
  assumes hs: "\<forall>i<itemsCount p. getItemHeight p cache i = Inr (h i)"
    and ov: "0 \<le> overscanOf p"
    and n: "0 < itemsCount p"
  shows "\<exists>r. rowsMemo p cache scrollOffset 0 = Inr r \<and>
           length (allItems r) = itemsCount p \<and>
           (\<forall>i<itemsCount p. \<exists>x. allItems r ! i = Some x \<and> index x = i \<and> height x = h i \<and>
                offsetTop x = (\<Sum>j<i. h j)) \<and>
           totalHeight r = (\<Sum>j<itemsCount p. h j) \<and>
           (startIndex r = - 1) = (\<forall>i<itemsCount p. (\<Sum>j<i. h j) + h i \<le> scrollOffset) \<and>
           (endIndex r = - 1) = (\<forall>i<itemsCount p. (\<Sum>j<i. h j) + h i < scrollOffset) \<and>
           (\<forall>s<itemsCount p.
              scrollOffset < (\<Sum>j<s. h j) + h s \<and> (\<forall>i<s. (\<Sum>j<i. h j) + h i \<le> scrollOffset)
              \<longrightarrow> startIndex r = max 0 (int s - overscanOf p)) \<and>
           (\<forall>e<itemsCount p.
              scrollOffset \<le> (\<Sum>j<e. h j) + h e \<and> (\<forall>i<e. (\<Sum>j<i. h j) + h i < scrollOffset)
              \<longrightarrow> endIndex r = min (int (itemsCount p) - 1) (int e + overscanOf p)) \<and>
           (startIndex r \<noteq> - 1 \<longrightarrow> 0 \<le> startIndex r \<and> startIndex r \<le> int (itemsCount p) - 1) \<and>
           (endIndex r \<noteq> - 1 \<longrightarrow> 0 \<le> endIndex r \<and> endIndex r \<le> int (itemsCount p) - 1)"
proof -
  let ?n = "itemsCount p"
  obtain r where r: "rowsMemo p cache scrollOffset 0 = Inr r"
      and tot: "totalHeight r = (\<Sum>j<?n. h j)"
      and rows: "allItems r = map (\<lambda>i. Some (rowOf p h i)) [0..<?n]"
      and si: "startIndex r = startOf p h scrollOffset ?n"
      and ei: "0 \<le> overscanOf p \<longrightarrow> endIndex r = endOf p h (scrollOffset + 0) ?n"
    using rowsMemo_result[OF hs, of scrollOffset 0] by (elim exE conjE) (rule that; assumption)
  have ei': "endIndex r = endOf p h scrollOffset ?n" using ei ov by simp
  have a: "length (allItems r) = ?n" by (simp add: rows)
  have b: "\<forall>i<?n. \<exists>x. allItems r ! i = Some x \<and> index x = i \<and> height x = h i \<and>
                offsetTop x = (\<Sum>j<i. h j)"
    by (simp add: rows rowOf_def)
  have c: "(startIndex r = - 1) = (\<forall>i<?n. (\<Sum>j<i. h j) + h i \<le> scrollOffset)"
  proof -
    have "max 0 (int x - overscanOf p) \<noteq> - 1" for x by linarith
    then have "(startIndex r = - 1) = (firstIndex (\<lambda>i. scrollOffset < edge h i) ?n = None)"
      by (simp add: si startOf_def split: option.splits)
    then show ?thesis by (simp add: firstIndex_None_iff edge_def not_less)
  qed
  have d: "(endIndex r = - 1) = (\<forall>i<?n. (\<Sum>j<i. h j) + h i < scrollOffset)"
  proof -
    have "min (int ?n - 1) (int x + overscanOf p) \<noteq> - 1" for x
      using ov n by linarith
    then have "(endIndex r = - 1) = (firstIndex (\<lambda>i. scrollOffset \<le> edge h i) ?n = None)"
      by (simp add: ei' endOf_def split: option.splits)
    then show ?thesis by (simp add: firstIndex_None_iff edge_def not_le)
  qed
  have e: "\<forall>s<?n. scrollOffset < (\<Sum>j<s. h j) + h s \<and> (\<forall>i<s. (\<Sum>j<i. h j) + h i \<le> scrollOffset)
              \<longrightarrow> startIndex r = max 0 (int s - overscanOf p)"
  proof (intro allI impI)
    fix s
    assume s: "s < ?n"
      and least: "scrollOffset < (\<Sum>j<s. h j) + h s \<and> (\<forall>i<s. (\<Sum>j<i. h j) + h i \<le> scrollOffset)"
    have "scrollOffset < edge h s" "\<forall>i<s. \<not> scrollOffset < edge h i"
      using least by (simp_all add: edge_def not_less)
    then show "startIndex r = max 0 (int s - overscanOf p)"
      using s by (simp add: si startOf_Some)
  qed
  have f: "\<forall>e<?n. scrollOffset \<le> (\<Sum>j<e. h j) + h e \<and> (\<forall>i<e. (\<Sum>j<i. h j) + h i < scrollOffset)
              \<longrightarrow> endIndex r = min (int ?n - 1) (int e + overscanOf p)"
  proof (intro allI impI)
    fix e
    assume e: "e < ?n"
      and least: "scrollOffset \<le> (\<Sum>j<e. h j) + h e \<and> (\<forall>i<e. (\<Sum>j<i. h j) + h i < scrollOffset)"
    have "scrollOffset \<le> edge h e" "\<forall>i<e. \<not> scrollOffset \<le> edge h i"
      using least by (simp_all add: edge_def not_le)
    then show "endIndex r = min (int ?n - 1) (int e + overscanOf p)"
      using e by (simp add: ei' endOf_Some)
  qed
  have g: "startIndex r \<noteq> - 1 \<longrightarrow> 0 \<le> startIndex r \<and> startIndex r \<le> int ?n - 1"
  proof (cases "firstIndex (\<lambda>i. scrollOffset < edge h i) ?n")
    case None
    then show ?thesis by (simp add: si startOf_def)
  next
    case (Some s)
    then have "s < ?n" by (simp add: firstIndex_Some_iff)
    then show ?thesis using ov by (simp add: si startOf_def Some)
  qed
  have k: "endIndex r \<noteq> - 1 \<longrightarrow> 0 \<le> endIndex r \<and> endIndex r \<le> int ?n - 1"
  proof (cases "firstIndex (\<lambda>i. scrollOffset \<le> edge h i) ?n")
    case None
    then show ?thesis by (simp add: ei' endOf_def)
  next
    case (Some e)
    then have "e < ?n" by (simp add: firstIndex_Some_iff)
    then have "0 \<le> min (int ?n - 1) (int e + overscanOf p) \<and>
               min (int ?n - 1) (int e + overscanOf p) \<le> int ?n - 1"
      using ov by linarith
    then show ?thesis by (simp add: ei' endOf_def Some)
  qed
  show ?thesis by (intro exI[of _ r] conjI r a b tot c d e f g k)
qed

theorem zero_viewport_range_witness:
  "(\<exists>r. rowsMemo exampleProps Map.empty 0 0 = Inr r \<and> totalHeight r = 64 \<and>
        startIndex r = 0 \<and> endIndex r = 3) \<and>
   (\<exists>r. rowsMemo exampleProps Map.empty 100 0 = Inr r \<and> totalHeight r = 64 \<and>
        startIndex r = - 1 \<and> endIndex r = - 1)"
proof -
  have ov: "0 \<le> overscanOf (exampleProps\<lparr>itemsCount := 4\<rparr>)"
    by (simp add: exampleProps_def overscanOf_def DEFAULT_OVERSCAN_def)
  have e: "exampleProps\<lparr>itemsCount := 4\<rparr> = exampleProps" by (simp add: exampleProps_def)
  have n: "itemsCount exampleProps = 4" by (simp add: exampleProps_def)
  have pos: "0 < itemsCount (exampleProps\<lparr>itemsCount := 4\<rparr>)" by simp
  have o: "overscanOf exampleProps = 3"
    by (simp add: exampleProps_def overscanOf_def DEFAULT_OVERSCAN_def)
  obtain r where r: "rowsMemo exampleProps Map.empty 0 0 = Inr r"
      and tot: "totalHeight r = (\<Sum>j<itemsCount exampleProps. 16)"
      and s: "\<forall>s<itemsCount exampleProps.
                (0::int) < (\<Sum>j<s. 16) + 16 \<and> (\<forall>i<s. (\<Sum>j<i. 16) + 16 \<le> (0::int))
                \<longrightarrow> startIndex r = max 0 (int s - overscanOf exampleProps)"
      and en: "\<forall>e<itemsCount exampleProps.
                (0::int) \<le> (\<Sum>j<e. 16) + 16 \<and> (\<forall>i<e. (\<Sum>j<i. 16) + 16 < (0::int))
                \<longrightarrow> endIndex r = min (int (itemsCount exampleProps) - 1) (int e + overscanOf exampleProps)"
    using zero_viewport_range[OF example_heights ov pos, of 0, unfolded e]
    by (elim exE conjE) (rule that; assumption)
  have "startIndex r = max 0 (int 0 - overscanOf exampleProps)"
    using s[rule_format, of 0] by (simp add: n)
  then have s0: "startIndex r = 0" by (simp add: o)
  have "endIndex r = min (int (itemsCount exampleProps) - 1) (int 0 + overscanOf exampleProps)"
    using en[rule_format, of 0] by (simp add: n)
  then have e3: "endIndex r = 3" by (simp add: o n)
  have A: "\<exists>r. rowsMemo exampleProps Map.empty 0 0 = Inr r \<and> totalHeight r = 64 \<and>
        startIndex r = 0 \<and> endIndex r = 3"
    using r tot s0 e3 by (auto simp: n)
  have B: "\<exists>r. rowsMemo exampleProps Map.empty 100 0 = Inr r \<and> totalHeight r = 64 \<and>
        startIndex r = - 1 \<and> endIndex r = - 1"
    using zero_viewport_range[OF example_heights ov pos, of 100, unfolded e]
    by (auto simp: n)
  show ?thesis using A B by (rule conjI)
qed

text \<open>Claim C7 as stated fails: with \<open>viewportHeight = 0\<close> and \<open>scrollOffset = 0\<close> the range
  of the four rows is \<open>[0, 3]\<close>, not the unset value.\<close>

theorem zero_viewport_counterexample:
  "rowsMemo exampleProps Map.empty 0 0 =
     Inr \<lparr>virtualItems =
            [Some \<lparr>key = ''a'', index = 0, height = 16, offsetTop = 0\<rparr>,
             Some \<lparr>key = ''b'', index = 1, height = 16, offsetTop = 16\<rparr>,
             Some \<lparr>key = ''c'', index = 2, height = 16, offsetTop = 32\<rparr>,
             Some \<lparr>key = ''d'', index = 3, height = 16, offsetTop = 48\<rparr>],
          startIndex = 0, endIndex = 3,
          allItems =
            [Some \<lparr>key = ''a'', index = 0, height = 16, offsetTop = 0\<rparr>,
             Some \<lparr>key = ''b'', index = 1, height = 16, offsetTop = 16\<rparr>,
             Some \<lparr>key = ''c'', index = 2, height = 16, offsetTop = 32\<rparr>,
             Some \<lparr>key = ''d'', index = 3, height = 16, offsetTop = 48\<rparr>],
          totalHeight = 64\<rparr>"
  by code_simp

text \<open>Claim C10. If no index \<open>i\<close> has
  \<open>offsetTop(i) + height(i) \<ge> scrollOffset + viewportHeight\<close>, the returned
  \<open>virtualItems\<close> is empty, whatever rows overlap the window.\<close>

theorem no_end_boundary_empty:
  assumes hs: "\<forall>i<itemsCount p. getItemHeight p cache i = Inr (h i)"
    and none: "\<forall>i<itemsCount p. (\<Sum>j<i. h j) + h i < scrollOffset + viewportHeight"
  shows "\<exists>r. rowsMemo p cache scrollOffset viewportHeight = Inr r \<and> virtualItems r = []"
proof -
  obtain r where r: "rowsMemo p cache scrollOffset viewportHeight = Inr r"
      and ei0: "firstIndex (\<lambda>i. scrollOffset + viewportHeight \<le> edge h i) (itemsCount p) = None
                  \<longrightarrow> endIndex r = - 1"
      and v: "virtualItems r = slice (allItems r) (startIndex r) (endIndex r + 1)"
    using rowsMemo_result[OF hs, of scrollOffset viewportHeight] by (elim exE conjE) (rule that; assumption)
  have "firstIndex (\<lambda>i. scrollOffset + viewportHeight \<le> edge h i) (itemsCount p) = None"
    using none by (simp add: firstIndex_None_iff edge_def not_le)
  then have "endIndex r = - 1" using ei0 by simp
  then have "virtualItems r = []" by (simp add: v slice_to_0)
  then show ?thesis using r by simp
qed

theorem no_end_boundary_empty_witness:
  "\<exists>r. rowsMemo exampleProps Map.empty 0 600 = Inr r \<and> virtualItems r = []"
  using no_end_boundary_empty[of exampleProps Map.empty "\<lambda>_. 16" 0 600]
  by (simp add: exampleProps_def getItemHeight_def)

lemma getItemHeight_fixed: "itemHeight p = Some f \<Longrightarrow> getItemHeight p cache i = Inr (f i)"
  by (simp add: getItemHeight_def)

text \<open>Claim C8, amended. With a fixed-height function \<open>f\<close> given as \<open>itemHeight\<close>,
  the callback returns and \<open>totalHeight\<close> is the sum of \<open>f i\<close> over all the indices
  \<open>0, ..., itemsCount - 1\<close>, the last one included.\<close>

theorem fixed_total_height:
  assumes "itemHeight p = Some f"
  shows "\<exists>r. rowsMemo p cache scrollOffset viewportHeight = Inr r \<and>
           totalHeight r = (\<Sum>i<itemsCount p. f i)"
proof -
  have hs: "\<forall>i<itemsCount p. getItemHeight p cache i = Inr (f i)"
    using assms by (simp add: getItemHeight_fixed)
  show ?thesis
    using rowsMemo_result[OF hs, of scrollOffset viewportHeight] by blast
qed

theorem fixed_total_height_witness:
  "\<exists>r. rowsMemo fixedProps Map.empty 0 600 = Inr r \<and> totalHeight r = 160"
  using fixed_total_height[of fixedProps "\<lambda>_. 40" Map.empty 0 600]
  by (simp add: fixedProps_def)

text \<open>Claim C8 as stated fails: four rows of fixed height 40 have \<open>totalHeight = 160\<close>,
  while the sum over the indices in \<open>[0, itemCount - 1)\<close> is 120.\<close>

theorem fixed_total_height_counterexample:
  "rowsMemo fixedProps Map.empty 0 600 =
     Inr \<lparr>virtualItems = [], startIndex = 0, endIndex = - 1,
          allItems =
            [Some \<lparr>key = ''a'', index = 0, height = 40, offsetTop = 0\<rparr>,
             Some \<lparr>key = ''b'', index = 1, height = 40, offsetTop = 40\<rparr>,
             Some \<lparr>key = ''c'', index = 2, height = 40, offsetTop = 80\<rparr>,
             Some \<lparr>key = ''d'', index = 3, height = 40, offsetTop = 120\<rparr>],
          totalHeight = 160\<rparr> \<and>
   (\<Sum>i = 0..<itemsCount fixedProps - 1. (40::int)) = 120"
proof
  show "rowsMemo fixedProps Map.empty 0 600 =
     Inr \<lparr>virtualItems = [], startIndex = 0, endIndex = - 1,
          allItems =
            [Some \<lparr>key = ''a'', index = 0, height = 40, offsetTop = 0\<rparr>,
             Some \<lparr>key = ''b'', index = 1, height = 40, offsetTop = 40\<rparr>,
             Some \<lparr>key = ''c'', index = 2, height = 40, offsetTop = 80\<rparr>,
             Some \<lparr>key = ''d'', index = 3, height = 40, offsetTop = 120\<rparr>],
          totalHeight = 160\<rparr>"
    by code_simp
  show "(\<Sum>i = 0..<itemsCount fixedProps - 1. (40::int)) = 120"
    by (simp add: fixedProps_def)
qed

lemma forLoop_cache_cong:
  assumes same: "\<forall>i<itemsCount p. getItemHeight p c' i = getItemHeight p c i"
  shows "forLoop p c' rs re i vars = forLoop p c rs re i vars"
proof (induction "itemsCount p - i" arbitrary: i vars)
  case 0
  then show ?case by (simp add: forLoop.simps)
next
  case (Suc d)
  then have i: "i < itemsCount p" by simp
  have step: "forLoop p c' rs re (Suc i) w = forLoop p c rs re (Suc i) w" for w
    using Suc.hyps(1)[of "Suc i" w] Suc.hyps(2) by simp
  show ?case
    using i same
    by (simp add: forLoop.simps[of p c' rs re i] forLoop.simps[of p c rs re i] step
             split: sum.splits)
qed

text \<open>Claim C9, amended. With a fixed-height function \<open>f\<close> given as \<open>itemHeight\<close>,
  the result of the callback does not depend on the measurement cache, and the height of
  every row \<open>i\<close> is \<open>f i\<close>.\<close>

theorem fixed_heights_ignore_cache:
  assumes "itemHeight p = Some f"
  shows "\<exists>r. rowsMemo p cache scrollOffset viewportHeight = Inr r \<and>
           rowsMemo p cache' scrollOffset viewportHeight = Inr r \<and>
           length (allItems r) = itemsCount p \<and>
           (\<forall>i<itemsCount p. \<exists>x. allItems r ! i = Some x \<and> index x = i \<and> height x = f i)"
proof -
  have hs: "\<forall>i<itemsCount p. getItemHeight p cache i = Inr (f i)"
    using assms by (simp add: getItemHeight_fixed)
  have "\<forall>i<itemsCount p. getItemHeight p cache' i = getItemHeight p cache i"
    using assms by (simp add: getItemHeight_fixed)
  then have "forLoop p cache' rs re 0 vars = forLoop p cache rs re 0 vars" for rs re vars
    by (rule forLoop_cache_cong)
  then have same: "rowsMemo p cache' scrollOffset viewportHeight
                     = rowsMemo p cache scrollOffset viewportHeight"
    by (simp add: rowsMemo_def)
  obtain r where r: "rowsMemo p cache scrollOffset viewportHeight = Inr r"
      and rows: "allItems r = map (\<lambda>i. Some (rowOf p f i)) [0..<itemsCount p]"
    using rowsMemo_result[OF hs, of scrollOffset viewportHeight] by (elim exE conjE) (rule that; assumption)
  have a: "rowsMemo p cache' scrollOffset viewportHeight = Inr r" by (simp add: same r)
  have b: "length (allItems r) = itemsCount p" by (simp add: rows)
  have c: "\<forall>i<itemsCount p. \<exists>x. allItems r ! i = Some x \<and> index x = i \<and> height x = f i"
    by (simp add: rows rowOf_def)
  show ?thesis by (intro exI[of _ r] conjI r a b c)
qed

theorem fixed_heights_ignore_cache_witness:
  "\<exists>r. rowsMemo fixedProps Map.empty 0 600 = Inr r \<and>
        rowsMemo fixedProps [''a'' \<mapsto> 30] 0 600 = Inr r \<and> length (allItems r) = 4"
  using fixed_heights_ignore_cache[of fixedProps "\<lambda>_. 40" Map.empty 0 600 "[''a'' \<mapsto> 30]"]
  by (auto simp: fixedProps_def)

subsection \<open>\<open>validateProps\<close>\<close>

lemma validateProps_throws_iff:
  "validateProps p = Inl ConfigurationError \<longleftrightarrow> itemsCount p = 0 \<and> estimateItemHeight p = None"
  by (simp add: validateProps_def)

text \<open>Claim C3, a defect of the code. With neither \<open>itemHeight\<close> nor
  \<open>estimateItemHeight\<close> and four items, \<open>validateProps\<close> returns normally: it tests
  \<open>itemsCount\<close> where its message names \<open>itemHeight\<close>. The first render then ends in the
  \<open>TypeError\<close> of the first height lookup. With no items and a fixed height,
  \<open>validateProps\<close> throws although a height function is given.\<close>

theorem validateProps_accepts_no_height:
  "validateProps noHeightProps = Inr () \<and>
   map_sum id (\<lambda>_. ()) (useFixedSizeList noHeightProps mount) = Inl TypeError \<and>
   validateProps (fixedProps\<lparr>itemsCount := 0\<rparr>) = Inl ConfigurationError"
  by code_simp

subsection \<open>The measurement callback\<close>

text \<open>On the value it reads from \<open>latestData.current\<close>, the callback does what its
  guards say: a registration of a row whose key is in that cache is skipped, and a first
  measurement is committed after the scroll adjustment, if any.\<close>

lemma measureElementInner_cached_skip:
  assumes "isConnected e" "parseInt (case dataIndex e of None \<Rightarrow> [] | Some a \<Rightarrow> a) = Some i"
    and "latest_measurementCache cur (latest_getItemKey cur i) = Some v"
  shows "measureElementInner cur scrollElement (Some e) None = ([Observe (elementId e)], Inr ())"
  using assms by (simp add: measureElementInner_def)

lemma measureElementInner_commit:
  assumes "isConnected e" "parseInt (case dataIndex e of None \<Rightarrow> [] | Some a \<Rightarrow> a) = Some i"
    and "latest_measurementCache cur (latest_getItemKey cur i) = None"
    and "at (latest_allItems cur) i = Some item"
  shows "measureElementInner cur scrollElement (Some e) None =
           ([Observe (elementId e)] @
            (if rectHeight e \<noteq> height item \<and> offsetTop item < latest_scrollTop cur \<and> scrollElement
             then [ScrollBy (rectHeight e - height item)] else []) @
            [SetMeasurementCache (latest_getItemKey cur i) (rectHeight e)], Inr ())"
  using assms by (simp add: measureElementInner_def Let_def)

lemma measureElementInner_ScrollBy:
  assumes "ScrollBy d \<in> set (fst (measureElementInner cur scrollElement el entry))"
  shows "\<exists>i item. at (latest_allItems cur) i = Some item \<and> offsetTop item < latest_scrollTop cur"
  using assms
  by (auto simp: measureElementInner_def Let_def split: option.splits if_splits)

text \<open>But \<open>latestData.current\<close> is the value of the first render, whatever happens
  later.\<close>

lemma useFixedSizeList_first_latest:
  assumes "useFixedSizeList p s = Inr (s', m)" "latestData s = None"
  shows "latestData s' =
           Some \<lparr>latest_measurementCache = measurementCache s, latest_getItemKey = getItemKey p,
                 latest_allItems = allItems m, latest_scrollTop = scrollTop s\<rparr>"
  using assms by (auto simp: useFixedSizeList_def useLatest_def Let_def split: sum.splits)

lemma useFixedSizeList_keeps_latest:
  assumes "useFixedSizeList p s = Inr (s', m)" "latestData s = Some c"
  shows "latestData s' = Some c"
  using assms by (auto simp: useFixedSizeList_def useLatest_def Let_def split: sum.splits)

lemma render_keeps_latest: "latestData s = Some c \<Longrightarrow> latestData (render p s) = Some c"
  by (auto simp: render_def dest: useFixedSizeList_keeps_latest split: sum.splits)

lemma setters_keep_latest:
  "latestData (setListHeight h s) = latestData s"
  "latestData (handleScroll t s) = latestData s"
  "latestData (setMeasurementCache k v s) = latestData s"
  by (simp_all add: setListHeight_def handleScroll_def setMeasurementCache_def)

lemma commit_keeps_latest: "latestData (commit es s) = latestData s"
  by (induction es s rule: commit.induct) (simp_all add: setters_keep_latest)

lemma at_rows:
  assumes "at (map (\<lambda>i. Some (rowOf p h i)) [0..<n]) i = Some item"
  shows "\<exists>k<n. item = rowOf p h k"
proof -
  have "0 \<le> i \<and> nat i < n" using assms by (auto simp: at_def split: if_splits)
  then show ?thesis using assms by (auto simp: at_def)
qed

text \<open>So, for heights that are not negative, no call of \<open>measureElement\<close> ever adjusts the
  scroll position: the callback compares the offsets of the first render's rows with the
  first render's \<open>scrollTop\<close>, which is 0.\<close>

lemma first_render_never_adjusts:
  assumes first: "useFixedSizeList p mount = Inr (s1, m)"
    and hs: "\<forall>i<itemsCount p. getItemHeight p Map.empty i = Inr (h i)"
    and pos: "\<forall>i<itemsCount p. 0 \<le> h i"
    and later: "latestData s = latestData s1"
    and call: "measureElement s scrollElement el = Some (es, res)"
  shows "ScrollBy d \<notin> set es"
proof
  assume d: "ScrollBy d \<in> set es"
  have m: "rowsMemo p Map.empty 0 0 = Inr m"
    using first
    by (auto simp: useFixedSizeList_def mount_def Let_def split: sum.splits)
  have cur: "latestData s1 =
               Some \<lparr>latest_measurementCache = Map.empty, latest_getItemKey = getItemKey p,
                     latest_allItems = allItems m, latest_scrollTop = 0\<rparr>"
    using useFixedSizeList_first_latest[OF first] by (simp add: mount_def)
  have rows: "allItems m = map (\<lambda>i. Some (rowOf p h i)) [0..<itemsCount p]"
    using rowsMemo_result[OF hs, of 0 0] m by auto
  have es: "es = fst (measureElementInner
                   \<lparr>latest_measurementCache = Map.empty, latest_getItemKey = getItemKey p,
                    latest_allItems = allItems m, latest_scrollTop = 0\<rparr> scrollElement el None)"
    using call by (simp add: measureElement_def later cur)
  obtain i item where item: "at (allItems m) i = Some item" "offsetTop item < 0"
    using measureElementInner_ScrollBy[OF d[unfolded es]] by auto
  obtain k where k: "k < itemsCount p" "item = rowOf p h k"
    using at_rows[OF item(1)[unfolded rows]] by auto
  have "0 \<le> (\<Sum>j<k. h j)"
    using pos k(1) by (intro sum_nonneg) auto
  then show False using item(2) k(2) by (simp add: rowOf_def)
qed

text \<open>Claim C5, a defect of the code. The list is scrolled to 20, past the top of row 0
  (\<open>offsetTop = 0\<close>, height 16), and the element of row 0 is measured at 30: the claim
  asks for the adjustment \<open>ScrollBy 14\<close> before the commit. The callback still reads
  \<open>scrollTop = 0\<close> and issues none.\<close>

theorem compensation_reads_first_render:
  "scrollTop (scrolledState exampleProps) = 20 \<and>
   rowsMemo exampleProps (measurementCache (scrolledState exampleProps))
       (scrollTop (scrolledState exampleProps)) (listHeight (scrolledState exampleProps)) =
     Inr \<lparr>virtualItems =
            [Some \<lparr>key = ''a'', index = 0, height = 16, offsetTop = 0\<rparr>,
             Some \<lparr>key = ''b'', index = 1, height = 16, offsetTop = 16\<rparr>,
             Some \<lparr>key = ''c'', index = 2, height = 16, offsetTop = 32\<rparr>,
             Some \<lparr>key = ''d'', index = 3, height = 16, offsetTop = 48\<rparr>],
          startIndex = 0, endIndex = 3,
          allItems =
            [Some \<lparr>key = ''a'', index = 0, height = 16, offsetTop = 0\<rparr>,
             Some \<lparr>key = ''b'', index = 1, height = 16, offsetTop = 16\<rparr>,
             Some \<lparr>key = ''c'', index = 2, height = 16, offsetTop = 32\<rparr>,
             Some \<lparr>key = ''d'', index = 3, height = 16, offsetTop = 48\<rparr>],
          totalHeight = 64\<rparr> \<and>
   map_option latest_scrollTop (latestData (scrolledState exampleProps)) = Some 0 \<and>
   measureElement (scrolledState exampleProps) True (Some exampleElement) =
     Some ([Observe 7, SetMeasurementCache ''a'' 30], Inr ())"
  by code_simp

text \<open>Claim C6, a defect of the code. A first call records the height 30 of row 0 under
  its key, and the hook renders again with the cache holding it. The callback still reads
  the empty cache of the first render: a second call with the same element and the same
  size writes the cache again.\<close>

theorem second_registration_writes_cache:
  "measureElement (mountedState exampleProps) True (Some exampleElement) =
     Some ([Observe 7, SetMeasurementCache ''a'' 30], Inr ()) \<and>
   measurementCache (measuredState exampleProps) ''a'' = Some 30 \<and>
   map_option (\<lambda>c. latest_measurementCache c ''a'') (latestData (measuredState exampleProps)) =
     Some None \<and>
   measureElement (measuredState exampleProps) True (Some exampleElement) =
     Some ([Observe 7, SetMeasurementCache ''a'' 30], Inr ())"
  by code_simp

text \<open>Claim C9 as stated fails for the measurement path: with \<open>itemHeight\<close> given, a call
  of the callback still writes the measured height into the cache.\<close>

theorem fixed_height_measured_counterexample:
  "map_option (\<lambda>f. f 0) (itemHeight fixedProps) = Some 40 \<and>
   measureElement (mountedState fixedProps) True (Some exampleElement) =
     Some ([Observe 7, SetMeasurementCache ''a'' 30], Inr ())"
  by code_simp

end
